theory Spec2Isabelle
  imports Complex_Main
begin

section \<open>A spring chain: the data model of \<open>src/main.ts\<close>\<close>

text \<open>
  The source file holds three versions of the same program. The first one (with
  \<open>updateNumCircles\<close>) is modelled in full; of the third one (with \<open>getForceBelow\<close> and
  \<open>updateGravity\<close>) the force computation, the integrator and \<open>resetCircles\<close> are modelled,
  with the suffix \<open>3\<close>.

  JavaScript numbers are modelled as real numbers: rounding, infinities and NaN are not
  part of the model. \<open>Date.now()\<close> is an integer number of milliseconds.
\<close>

subsection \<open>Vectors and circles of the drawing library\<close>

datatype vector = Vector (vx: real) (vy: real)

text \<open>
  Modelled from the spec: the methods of the library's \<open>Vector\<close> (\<open>sub\<close>, \<open>multiply\<close>,
  \<open>divide\<close>, \<open>appendY\<close>, \<open>clone\<close>), the library's \<open>distance\<close> and the \<open>move\<close> of a circle
  (called with no duration) are not in the source file; the spec describes them as a 2D
  vector with add/sub/scale/clone and in-place divide/append. Every call site works on a
  vector that no other object holds, so in-place mutation is modelled by the returned
  value.
\<close>

definition sub :: "vector \<Rightarrow> vector \<Rightarrow> vector" where
  "sub a b = Vector (vx a - vx b) (vy a - vy b)"

definition multiply :: "vector \<Rightarrow> real \<Rightarrow> vector" where
  "multiply a n = Vector (vx a * n) (vy a * n)"

definition divide_vec :: "vector \<Rightarrow> real \<Rightarrow> vector" where
  "divide_vec a n = Vector (vx a / n) (vy a / n)"

definition appendY :: "vector \<Rightarrow> real \<Rightarrow> vector" where
  "appendY a w = Vector (vx a) (vy a + w)"

definition clone :: "vector \<Rightarrow> vector" where
  "clone a = Vector (vx a) (vy a)"

definition distance :: "vector \<Rightarrow> vector \<Rightarrow> real" where
  "distance p q = sqrt ((vx p - vx q)\<^sup>2 + (vy p - vy q)\<^sup>2)"

record physics_circle =
  pos :: vector
  velocity :: vector
  mass :: real
  radius :: real

definition move :: "physics_circle \<Rightarrow> vector \<Rightarrow> physics_circle" where
  "move c p = c\<lparr>pos := Vector (vx (pos c) + vx p) (vy (pos c) + vy p)\<rparr>"

text \<open>\<open>new PhysicsCircle(mass, pos, radius)\<close>: the velocity field starts at \<open>(0, 0)\<close>.\<close>

definition PhysicsCircle :: "real \<Rightarrow> vector \<Rightarrow> real \<Rightarrow> physics_circle" where
  "PhysicsCircle m p r = \<lparr>pos = p, velocity = Vector 0 0, mass = m, radius = r\<rparr>"

subsection \<open>Constants and the mutable globals\<close>

definition fps :: real where "fps = 60"
definition forceDampen :: real where "forceDampen = 12"
definition circleGap :: real where "circleGap = 120"
definition circleRadius :: real where "circleRadius = 6"
definition circleMass :: real where "circleMass = 0.5"
definition g :: real where "g = 9.8"
definition friction :: real where "friction = 0.98"

text \<open>
  The module's \<open>let\<close> variables, and \<open>canvas.ratio\<close> of the library's canvas, which the
  pointer handlers read.
\<close>

record state =
  circles :: "physics_circle list"
  springLength :: real
  springConstant :: real
  currentDragging :: nat
  stationaryPoints :: "nat set"
  numCircles :: int
  dragging :: bool
  mousePos :: vector
  pressingShift :: bool
  prev :: int
  ratio :: real

text \<open>
  A handler either returns or stops at an uncaught \<open>TypeError\<close> (a property read on
  \<open>undefined\<close>). The page keeps running after that, with the assignments made before the
  throw: \<open>Threw\<close> carries that state.
\<close>

datatype outcome = Returned state | Threw state

fun final :: "outcome \<Rightarrow> state" where
  "final (Returned s) = s"
| "final (Threw s) = s"

fun returned :: "outcome \<Rightarrow> bool" where
  "returned (Returned s) = True"
| "returned (Threw s) = False"

subsection \<open>Construction, reset and resize\<close>

function generatePoints_loop ::
  "vector \<Rightarrow> int \<Rightarrow> int \<Rightarrow> physics_circle list \<Rightarrow> physics_circle list" where
  "generatePoints_loop p num i res =
     (if i < num
      then generatePoints_loop p num (i + 1)
             (res @ [PhysicsCircle circleMass (Vector (vx p) (of_int i * circleGap + vy p))
                       circleRadius])
      else res)"
  by pat_completeness auto
termination
  by (relation "measure (\<lambda>(p, num, i, res). nat (num - i))") auto

declare generatePoints_loop.simps [simp del]

definition generatePoints :: "vector \<Rightarrow> int \<Rightarrow> physics_circle list" where
  "generatePoints p num = generatePoints_loop p num 0 []"

definition resetCircles :: "state \<Rightarrow> state" where
  "resetCircles s =
     s\<lparr>stationaryPoints := {0},
       circles := generatePoints (Vector 800 250) (numCircles s)\<rparr>"

text \<open>
  The \<open>while\<close> loop of \<open>updateNumCircles\<close>. On an empty array
  \<open>circles[circles.length - 1]\<close> is \<open>undefined\<close> and reading its \<open>pos\<close> throws.
\<close>

function updateNumCircles_loop :: "int \<Rightarrow> state \<Rightarrow> outcome" where
  "updateNumCircles_loop num s =
     (if num > numCircles s
      then (if circles s = [] then Threw s
            else updateNumCircles_loop num
                   (s\<lparr>circles := circles s @
                        [PhysicsCircle circleMass (clone (pos (last (circles s)))) circleRadius],
                      numCircles := numCircles s + 1\<rparr>))
      else Returned s)"
  by pat_completeness auto
termination
  by (relation "measure (\<lambda>(num, s). nat (num - numCircles s))") auto

declare updateNumCircles_loop.simps [simp del]

text \<open>
  \<open>circles.splice(start)\<close> removes everything from \<open>start\<close> on; a negative \<open>start\<close> counts
  from the end. What stays is a prefix.
\<close>

definition splice_keep :: "'a list \<Rightarrow> int \<Rightarrow> 'a list" where
  "splice_keep xs start =
     (if start < 0 then take (nat (max (int (length xs) + start) 0)) xs
      else take (nat start) xs)"

text \<open>The argument is the number that \<open>+val\<close> gives, taken to be an integer.\<close>

definition updateNumCircles :: "int \<Rightarrow> state \<Rightarrow> outcome" where
  "updateNumCircles num s =
     (case updateNumCircles_loop num s of
        Threw s' \<Rightarrow> Threw s'
      | Returned s' \<Rightarrow>
          (if num < numCircles s'
           then Returned (s'\<lparr>numCircles := num, circles := splice_keep (circles s') num\<rparr>)
           else Returned s'))"

subsection \<open>Picking and the pointer handlers\<close>

function getClosestPointIndex_loop :: "physics_circle list \<Rightarrow> vector \<Rightarrow> nat \<Rightarrow> nat \<Rightarrow> nat" where
  "getClosestPointIndex_loop cs p i res =
     (if i < length cs
      then getClosestPointIndex_loop cs p (i + 1)
             (if distance (pos (cs ! i)) p < distance (pos (cs ! res)) p then i else res)
      else res)"
  by pat_completeness auto
termination
  by (relation "measure (\<lambda>(cs, p, i, res). length cs - i)") auto

declare getClosestPointIndex_loop.simps [simp del]

definition getClosestPointIndex :: "state \<Rightarrow> vector \<Rightarrow> nat" where
  "getClosestPointIndex s p = getClosestPointIndex_loop (circles s) p 0 0"

text \<open>
  \<open>circles[i].velocity = v\<close> and \<open>circles[i].move(d)\<close>: past the end of the array
  \<open>circles[i]\<close> is \<open>undefined\<close> and the statement throws.
\<close>

definition set_velocity :: "nat \<Rightarrow> vector \<Rightarrow> state \<Rightarrow> outcome" where
  "set_velocity i v s =
     (if i < length (circles s)
      then Returned (s\<lparr>circles := (circles s)[i := (circles s ! i)\<lparr>velocity := v\<rparr>]\<rparr>)
      else Threw s)"

definition move_circle :: "nat \<Rightarrow> vector \<Rightarrow> state \<Rightarrow> outcome" where
  "move_circle i d s =
     (if i < length (circles s)
      then Returned (s\<lparr>circles := (circles s)[i := move (circles s ! i) d]\<rparr>)
      else Threw s)"

definition pointer :: "state \<Rightarrow> real \<Rightarrow> real \<Rightarrow> vector" where
  "pointer s offsetX offsetY = Vector (offsetX * ratio s) (offsetY * ratio s)"

definition mousedown :: "real \<Rightarrow> real \<Rightarrow> state \<Rightarrow> outcome" where
  "mousedown offsetX offsetY s =
     (let p = pointer s offsetX offsetY;
          s1 = s\<lparr>currentDragging := getClosestPointIndex s p\<rparr>
      in if pressingShift s1
         then (if currentDragging s1 = 0 then Returned s1
               else if currentDragging s1 \<in> stationaryPoints s1
               then Returned (s1\<lparr>stationaryPoints := stationaryPoints s1 - {currentDragging s1},
                                 currentDragging := 0\<rparr>)
               else (case set_velocity (currentDragging s1) (Vector 0 0) s1 of
                       Threw s2 \<Rightarrow> Threw s2
                     | Returned s2 \<Rightarrow>
                         Returned (s2\<lparr>stationaryPoints :=
                                         insert (currentDragging s2) (stationaryPoints s2)\<rparr>)))
         else set_velocity (currentDragging s1) (Vector 0 0) (s1\<lparr>dragging := True\<rparr>))"

definition mouseup :: "real \<Rightarrow> real \<Rightarrow> state \<Rightarrow> outcome" where
  "mouseup offsetX offsetY s =
     (if dragging s
      then (let s1 = s\<lparr>dragging := False\<rparr>;
                p = pointer s1 offsetX offsetY;
                diff = sub p (mousePos s1)
            in case set_velocity (currentDragging s1) (multiply diff 2) s1 of
                 Threw s2 \<Rightarrow> Threw s2
               | Returned s2 \<Rightarrow> Returned (s2\<lparr>currentDragging := 0\<rparr>))
      else Returned s)"

definition mousemove :: "real \<Rightarrow> real \<Rightarrow> state \<Rightarrow> outcome" where
  "mousemove offsetX offsetY s =
     (let p = pointer s offsetX offsetY
      in if dragging s
         then (case move_circle (currentDragging s) (sub (clone p) (mousePos s)) s of
                 Threw s1 \<Rightarrow> Threw s1
               | Returned s1 \<Rightarrow> Returned (s1\<lparr>mousePos := p\<rparr>))
         else Returned (s\<lparr>mousePos := p\<rparr>))"

definition keydown :: "string \<Rightarrow> state \<Rightarrow> state" where
  "keydown key s = (if key = ''Shift'' then s\<lparr>pressingShift := True\<rparr> else s)"

definition keyup :: "string \<Rightarrow> state \<Rightarrow> state" where
  "keyup key s = (if key = ''Shift'' then s\<lparr>pressingShift := False\<rparr> else s)"

subsection \<open>The integrator\<close>

definition springForceCircles :: "state \<Rightarrow> physics_circle \<Rightarrow> physics_circle \<Rightarrow> vector" where
  "springForceCircles s c1 c2 =
     (let diff = Vector (vx (pos c1) - vx (pos c2)) (vy (pos c1) - vy (pos c2))
      in Vector (springConstant s * vx diff) (springConstant s * (vy diff - springLength s)))"

definition clamp :: "real \<Rightarrow> real \<Rightarrow> real \<Rightarrow> real" where
  "clamp val lo hi = max (min val hi) lo"

text \<open>
  \<open>circles[k]\<close>: \<open>undefined\<close> outside the array, and a property read on it throws.
\<close>

definition element :: "physics_circle list \<Rightarrow> int \<Rightarrow> physics_circle option" where
  "element cs k = (if 0 \<le> k \<and> k < int (length cs) then Some (cs ! nat k) else None)"

text \<open>
  The force on node \<open>i\<close> as the loop body computes it: the difference of the two spring
  forces, divided by \<open>forceDampen\<close>, and then the weight appended to its y-component.
  \<open>None\<close> stands for the \<open>TypeError\<close> of a read outside the array.
\<close>

definition net_force :: "state \<Rightarrow> nat \<Rightarrow> vector option" where
  "net_force s i =
     (let cs = circles s
      in case element cs (int i) of
           None \<Rightarrow> None
         | Some c \<Rightarrow>
             (let weight = mass c * g
              in case (if int i < int (length cs) - 1
                       then (case element cs (int i + 1) of
                               None \<Rightarrow> None
                             | Some c_next \<Rightarrow> Some (springForceCircles s c_next c))
                       else Some (Vector 0 0)) of
                   None \<Rightarrow> None
                 | Some forceBelow \<Rightarrow>
                     (case element cs (int i - 1) of
                        None \<Rightarrow> None
                      | Some c_prev \<Rightarrow>
                          (let forceAbove = springForceCircles s c c_prev;
                               force = Vector (vx forceBelow - vx forceAbove)
                                              (vy forceBelow - vy forceAbove)
                           in Some (appendY (divide_vec force forceDampen) weight)))))"

text \<open>The rest of the loop body: node \<open>i\<close> with its new velocity.\<close>

definition accelerate :: "state \<Rightarrow> real \<Rightarrow> nat \<Rightarrow> physics_circle option" where
  "accelerate s dx i =
     (case net_force s i of
        None \<Rightarrow> None
      | Some force \<Rightarrow>
          (case element (circles s) (int i) of
             None \<Rightarrow> None
           | Some c \<Rightarrow>
               (let accY = vy force / mass c / fps;
                    accX = vx force / mass c / fps;
                    vfy = (vy (velocity c) + accY * dx) * friction;
                    vfx = (vx (velocity c) + accX * dx) * friction
                in Some (c\<lparr>velocity := Vector vfx vfy\<rparr>))))"

text \<open>
  The \<open>for\<close> loop of \<open>accelerateCircles\<close>; a throw in the body leaves the loop with the
  nodes updated so far.
\<close>

function accelerateCircles_loop :: "real \<Rightarrow> nat \<Rightarrow> state \<Rightarrow> outcome" where
  "accelerateCircles_loop dx i s =
     (if i < length (circles s)
      then (if i \<in> stationaryPoints s \<or> i = currentDragging s
            then accelerateCircles_loop dx (i + 1) s
            else (case accelerate s dx i of
                    None \<Rightarrow> Threw s
                  | Some c \<Rightarrow>
                      accelerateCircles_loop dx (i + 1) (s\<lparr>circles := (circles s)[i := c]\<rparr>)))
      else Returned s)"
  by pat_completeness auto
termination
  by (relation "measure (\<lambda>(dx, i, s). length (circles s) - i)") auto

declare accelerateCircles_loop.simps [simp del]

definition accelerateCircles :: "int \<Rightarrow> state \<Rightarrow> outcome" where
  "accelerateCircles now s =
     (let dx = clamp (of_int (now - prev s)) 0 17
      in accelerateCircles_loop dx 0 (s\<lparr>prev := now\<rparr>))"

text \<open>The frame callback; drawing changes nothing of the state.\<close>

definition frame :: "int \<Rightarrow> state \<Rightarrow> outcome" where
  "frame now s =
     (case accelerateCircles now s of
        Threw s' \<Rightarrow> Threw s'
      | Returned s' \<Rightarrow>
          Returned (s'\<lparr>circles := map (\<lambda>circle. move circle (velocity circle)) (circles s')\<rparr>))"

subsection \<open>The version with \<open>getForceBelow\<close>\<close>

text \<open>
  The globals that the integrator and \<open>resetCircles\<close> of that version use; its gravity is a
  variable, which \<open>updateGravity\<close> sets.
\<close>

record state3 =
  circles3 :: "physics_circle list"
  g3 :: real
  springLength3 :: real
  springConstant3 :: real
  currentDragging3 :: nat
  stationaryPoints3 :: "nat set"
  prev3 :: int

datatype outcome3 = Returned3 state3 | Threw3 state3

definition springForceCircles3 :: "state3 \<Rightarrow> physics_circle \<Rightarrow> physics_circle \<Rightarrow> vector" where
  "springForceCircles3 s c1 c2 =
     (let diff = Vector (vx (pos c1) - vx (pos c2)) (vy (pos c1) - vy (pos c2))
      in Vector (springConstant3 s * vx diff) (springConstant3 s * (vy diff - springLength3 s)))"

definition getForceBelow3 :: "state3 \<Rightarrow> nat \<Rightarrow> vector option" where
  "getForceBelow3 s index =
     (let cs = circles3 s
      in case element cs (int index) of
           None \<Rightarrow> None
         | Some c \<Rightarrow>
             (let weight = mass c * g3 s
              in if int index < int (length cs) - 1
                 then (case element cs (int index + 1) of
                         None \<Rightarrow> None
                       | Some c_next \<Rightarrow> Some (appendY (springForceCircles3 s c_next c) weight))
                 else Some (Vector 0 weight)))"

definition getForceAbove3 :: "state3 \<Rightarrow> nat \<Rightarrow> vector option" where
  "getForceAbove3 s index =
     (let cs = circles3 s
      in case element cs (int index) of
           None \<Rightarrow> None
         | Some c \<Rightarrow>
             (case element cs (int index - 1) of
                None \<Rightarrow> None
              | Some c_prev \<Rightarrow> Some (springForceCircles3 s c c_prev)))"

definition net_force3 :: "state3 \<Rightarrow> nat \<Rightarrow> vector option" where
  "net_force3 s i =
     (case getForceBelow3 s i of
        None \<Rightarrow> None
      | Some forceBelow \<Rightarrow>
          (case getForceAbove3 s i of
             None \<Rightarrow> None
           | Some forceAbove \<Rightarrow>
               Some (divide_vec (Vector (vx forceBelow - vx forceAbove)
                                        (vy forceBelow - vy forceAbove)) forceDampen)))"

definition accelerate3 :: "state3 \<Rightarrow> real \<Rightarrow> nat \<Rightarrow> physics_circle option" where
  "accelerate3 s dx i =
     (case net_force3 s i of
        None \<Rightarrow> None
      | Some force \<Rightarrow>
          (case element (circles3 s) (int i) of
             None \<Rightarrow> None
           | Some c \<Rightarrow>
               (let accY = vy force / mass c / fps;
                    accX = vx force / mass c / fps;
                    vfy = (vy (velocity c) + accY * dx) * friction;
                    vfx = (vx (velocity c) + accX * dx) * friction
                in Some (c\<lparr>velocity := Vector vfx vfy\<rparr>))))"

function accelerateCircles3_loop :: "real \<Rightarrow> nat \<Rightarrow> state3 \<Rightarrow> outcome3" where
  "accelerateCircles3_loop dx i s =
     (if i < length (circles3 s)
      then (if i \<in> stationaryPoints3 s \<or> i = currentDragging3 s
            then accelerateCircles3_loop dx (i + 1) s
            else (case accelerate3 s dx i of
                    None \<Rightarrow> Threw3 s
                  | Some c \<Rightarrow>
                      accelerateCircles3_loop dx (i + 1) (s\<lparr>circles3 := (circles3 s)[i := c]\<rparr>)))
      else Returned3 s)"
  by pat_completeness auto
termination
  by (relation "measure (\<lambda>(dx, i, s). length (circles3 s) - i)") auto

declare accelerateCircles3_loop.simps [simp del]

definition accelerateCircles3 :: "int \<Rightarrow> state3 \<Rightarrow> outcome3" where
  "accelerateCircles3 now s =
     (let dx = clamp (of_int (now - prev3 s)) 0 17
      in accelerateCircles3_loop dx 0 (s\<lparr>prev3 := now\<rparr>))"

function generatePoints3_loop ::
  "vector \<Rightarrow> int \<Rightarrow> real \<Rightarrow> int \<Rightarrow> physics_circle list \<Rightarrow> physics_circle list" where
  "generatePoints3_loop p num m i res =
     (if i < num
      then generatePoints3_loop p num m (i + 1)
             (res @ [PhysicsCircle m (Vector (vx p) (of_int i * 160 + vy p)) 6])
      else res)"
  by pat_completeness auto
termination
  by (relation "measure (\<lambda>(p, num, m, i, res). nat (num - i))") auto

declare generatePoints3_loop.simps [simp del]

definition generatePoints3 :: "vector \<Rightarrow> int \<Rightarrow> real \<Rightarrow> physics_circle list" where
  "generatePoints3 p num m = generatePoints3_loop p num m 0 []"

definition resetCircles3 :: "state3 \<Rightarrow> state3" where
  "resetCircles3 s =
     s\<lparr>stationaryPoints3 := {0},
       circles3 := generatePoints3 (Vector 800 250) 12 0.5\<rparr>"

subsection \<open>The formulas of the description\<close>

text \<open>
  The two spring forces on node \<open>i\<close> in the words of the description:
  \<open>Fbelow = k * (pos[i+1] - pos[i] - (0, restLength))\<close>, or \<open>(0, 0)\<close> for the last node, and
  \<open>Fabove = k * (pos[i] - pos[i-1] - (0, restLength))\<close>.
\<close>

definition Fbelow :: "real \<Rightarrow> real \<Rightarrow> physics_circle list \<Rightarrow> nat \<Rightarrow> vector" where
  "Fbelow k restLength cs i =
     (if i + 1 < length cs
      then Vector (k * (vx (pos (cs ! (i + 1))) - vx (pos (cs ! i))))
                  (k * (vy (pos (cs ! (i + 1))) - vy (pos (cs ! i)) - restLength))
      else Vector 0 0)"

definition Fabove :: "real \<Rightarrow> real \<Rightarrow> physics_circle list \<Rightarrow> nat \<Rightarrow> vector" where
  "Fabove k restLength cs i =
     Vector (k * (vx (pos (cs ! i)) - vx (pos (cs ! (i - 1)))))
            (k * (vy (pos (cs ! i)) - vy (pos (cs ! (i - 1))) - restLength))"

text \<open>
  The net force as the description words it: \<open>Fbelow - Fabove\<close>, the weight added to the
  y-component, and the sum divided by the dampening constant.
\<close>

definition weight_then_dampen ::
  "real \<Rightarrow> real \<Rightarrow> real \<Rightarrow> real \<Rightarrow> physics_circle list \<Rightarrow> nat \<Rightarrow> vector" where
  "weight_then_dampen k restLength gravity dampen cs i =
     Vector ((vx (Fbelow k restLength cs i) - vx (Fabove k restLength cs i)) / dampen)
            ((vy (Fbelow k restLength cs i) - vy (Fabove k restLength cs i)
               + mass (cs ! i) * gravity) / dampen)"

text \<open>The other order: \<open>Fbelow - Fabove\<close> divided first, the weight added afterwards.\<close>

definition dampen_then_weight ::
  "real \<Rightarrow> real \<Rightarrow> real \<Rightarrow> real \<Rightarrow> physics_circle list \<Rightarrow> nat \<Rightarrow> vector" where
  "dampen_then_weight k restLength gravity dampen cs i =
     Vector ((vx (Fbelow k restLength cs i) - vx (Fabove k restLength cs i)) / dampen)
            ((vy (Fbelow k restLength cs i) - vy (Fabove k restLength cs i)) / dampen
               + mass (cs ! i) * gravity)"

text \<open>
  The velocity update \<open>v_new = (v_old + a * dt) * frictionFactor\<close> with
  \<open>a = F / mass / framesPerSecondConstant\<close>.
\<close>

definition v_new :: "vector \<Rightarrow> vector \<Rightarrow> real \<Rightarrow> real \<Rightarrow> vector" where
  "v_new v_old F m dt =
     Vector ((vx v_old + vx F / m / 60 * dt) * (98 / 100))
            ((vy v_old + vy F / m / 60 * dt) * (98 / 100))"

subsection \<open>What one integration step computes\<close>

text \<open>The test at the head of the loop body: a pinned or dragged node is left alone.\<close>

definition skipped :: "state \<Rightarrow> nat \<Rightarrow> bool" where
  "skipped s i = (i \<in> stationaryPoints s \<or> i = currentDragging s)"

text \<open>Node \<open>i\<close> after a step of length \<open>dx\<close>, computed from the state \<open>s\<close>.\<close>

definition accelerated :: "state \<Rightarrow> real \<Rightarrow> nat \<Rightarrow> physics_circle" where
  "accelerated s dx i =
     (circles s ! i)
       \<lparr>velocity :=
          v_new (velocity (circles s ! i))
            (dampen_then_weight (springConstant s) (springLength s) g forceDampen (circles s) i)
            (mass (circles s ! i)) dx\<rparr>"

text \<open>
  The circles after a step of length \<open>dx\<close>, every node computed from the state at the start
  of the step.
\<close>

definition snapshot :: "state \<Rightarrow> real \<Rightarrow> physics_circle list" where
  "snapshot s dx =
     map (\<lambda>j. if skipped s j then circles s ! j else accelerated s dx j)
       [0..<length (circles s)]"

text \<open>The loop reaches its end unless node 0 exists and is neither pinned nor dragged.\<close>

definition can_integrate :: "state \<Rightarrow> bool" where
  "can_integrate s = (skipped s 0 \<or> circles s = [])"

subsection \<open>Concrete states\<close>

text \<open>
  The chain of the spec's scenario: three nodes 120 apart, node 0 pinned, spring constant 4,
  rest length 80; the last frame was at time 1000.
\<close>

definition chain3 :: state where
  "chain3 =
     \<lparr>circles = [PhysicsCircle circleMass (Vector 800 250) circleRadius,
                 PhysicsCircle circleMass (Vector 800 370) circleRadius,
                 PhysicsCircle circleMass (Vector 800 490) circleRadius],
      springLength = 80, springConstant = 4,
      currentDragging = 0, stationaryPoints = {0}, numCircles = 3, dragging = False,
      mousePos = Vector 0 0, pressingShift = False, prev = 1000, ratio = 1\<rparr>"

text \<open>The same chain with node 1 grabbed at its centre.\<close>

definition dragged1 :: state where
  "dragged1 = chain3\<lparr>currentDragging := 1, dragging := True, mousePos := Vector 800 370\<rparr>"

text \<open>The same three nodes in the version with \<open>getForceBelow\<close>.\<close>

definition chain3' :: state3 where
  "chain3' =
     \<lparr>circles3 = circles chain3, g3 = 9.8, springLength3 = 80, springConstant3 = 4,
      currentDragging3 = 0, stationaryPoints3 = {0}, prev3 = 1000\<rparr>"

text \<open>The three-node chain after a shift-click on node 2, which pins it.\<close>

definition pinned2 :: state where
  "pinned2 = chain3\<lparr>pressingShift := True, currentDragging := 2, stationaryPoints := {0, 2}\<rparr>"

subsection \<open>Well-formed chains\<close>

text \<open>
  The counter \<open>numCircles\<close> is the length of the array, and the chain has a node: true when
  the module is loaded, and kept by every resize to a count of at least 1.
\<close>

definition chain_ok :: "state \<Rightarrow> bool" where
  "chain_ok s = (numCircles s = int (length (circles s)) \<and> circles s \<noteq> [])"

text \<open>The node that \<open>updateNumCircles\<close> appends to the chain \<open>cs\<close>.\<close>

definition appended :: "physics_circle list \<Rightarrow> physics_circle" where
  "appended cs = \<lparr>pos = pos (last cs), velocity = Vector 0 0, mass = circleMass,
                  radius = circleRadius\<rparr>"

subsection \<open>Runs of events\<close>

text \<open>
  The events the page reacts to between resets and resizes: the three pointer events with
  their offsets, the two key events with their key, and a frame with the time it reads.
\<close>

datatype event =
  MouseDown real real | MouseUp real real | MouseMove real real
  | KeyDown string | KeyUp string | Frame int

fun handle :: "event \<Rightarrow> state \<Rightarrow> outcome" where
  "handle (MouseDown offsetX offsetY) s = mousedown offsetX offsetY s"
| "handle (MouseUp offsetX offsetY) s = mouseup offsetX offsetY s"
| "handle (MouseMove offsetX offsetY) s = mousemove offsetX offsetY s"
| "handle (KeyDown key) s = Returned (keydown key s)"
| "handle (KeyUp key) s = Returned (keyup key s)"
| "handle (Frame now) s = frame now s"

text \<open>After a handler has returned or thrown, the next event finds the state it left.\<close>

fun run :: "event list \<Rightarrow> state \<Rightarrow> state" where
  "run [] s = s"
| "run (e # es) s = run es (final (handle e s))"




text \<open>A drag is in progress, or the dragged index is 0 or pinned.\<close>

definition idle_index_ok :: "state \<Rightarrow> bool" where
  "idle_index_ok s =
     (dragging s \<or> currentDragging s = 0 \<or> currentDragging s \<in> stationaryPoints s)"

text \<open>
  The dragged index is 0, or pinned, or the index of an existing node that a drag in
  progress holds.
\<close>

definition drag_index_ok :: "state \<Rightarrow> bool" where
  "drag_index_ok s =
     (currentDragging s = 0 \<or> currentDragging s \<in> stationaryPoints s
      \<or> (dragging s \<and> currentDragging s < length (circles s)))"




text \<open>
  The three-node chain with node 2 grabbed and then removed by a resize to two nodes while
  the button is still down.
\<close>

definition stale_drag :: state where
  "stale_drag =
     chain3\<lparr>circles := take 2 (circles chain3), numCircles := 2, currentDragging := 2,
            dragging := True, mousePos := Vector 800 490\<rparr>"

text \<open>Pinning node 2 with a shift-click, and then one frame.\<close>

definition pin_node2 :: "event list" where
  "pin_node2 = [KeyDown ''Shift'', MouseDown 800 490, KeyUp ''Shift'', Frame 1016]"

section \<open>The integrator\<close>

lemma generatePoints_3: "generatePoints (Vector 800 250) 3 = circles chain3"
  by (simp add: generatePoints_def generatePoints_loop.simps chain3_def circleGap_def)

lemma dragged1_reached:
  "final (mousedown 800 370 (final (mousemove 800 370 chain3))) = dragged1"
  by (simp add: mousemove_def mousedown_def pointer_def Let_def set_velocity_def dragged1_def
      getClosestPointIndex_def getClosestPointIndex_loop.simps distance_def chain3_def
      PhysicsCircle_def)

text \<open>Inside the array every read of the loop body succeeds; at node 0 the body throws.\<close>

lemma net_force_Some:
  assumes "0 < i" and "i < length (circles s)"
  shows "net_force s i =
    Some (dampen_then_weight (springConstant s) (springLength s) g forceDampen (circles s) i)"
proof -
  have e: "element (circles s) (int i) = Some (circles s ! i)"
    "element (circles s) (int i - 1) = Some (circles s ! (i - 1))"
    using assms by (simp_all add: element_def nat_diff_distrib')
  show ?thesis
  proof (cases "i + 1 < length (circles s)")
    case True
    then have "element (circles s) (int i + 1) = Some (circles s ! (i + 1))"
      by (simp add: element_def nat_add_distrib)
    with True e show ?thesis
      by (simp add: net_force_def Let_def springForceCircles_def dampen_then_weight_def
          Fbelow_def Fabove_def appendY_def divide_vec_def)
  next
    case False
    with e show ?thesis
      by (simp add: net_force_def Let_def springForceCircles_def dampen_then_weight_def
          Fbelow_def Fabove_def appendY_def divide_vec_def)
  qed
qed

lemma net_force_0: "net_force s 0 = None"
  by (simp add: net_force_def Let_def element_def split: option.splits)

lemma accelerate_Some:
  assumes "0 < i" and "i < length (circles s)"
  shows "accelerate s dx i = Some (accelerated s dx i)"
proof -
  have "element (circles s) (int i) = Some (circles s ! i)"
    using assms by (simp add: element_def)
  then show ?thesis
    by (simp add: accelerate_def net_force_Some[OF assms] accelerated_def v_new_def Let_def
        fps_def friction_def)
qed

lemma accelerate_0: "accelerate s dx 0 = None"
  by (simp add: accelerate_def net_force_0)

lemma accelerated_pos [simp]: "pos (accelerated s dx i) = pos (circles s ! i)"
  and accelerated_mass [simp]: "mass (accelerated s dx i) = mass (circles s ! i)"
  and accelerated_radius [simp]: "radius (accelerated s dx i) = radius (circles s ! i)"
  by (simp_all add: accelerated_def)

text \<open>The force on a node depends on positions, masses and the spring parameters only.\<close>

lemma accelerated_cong:
  assumes "length (circles t) = length (circles s)"
    and "\<And>k. k < length (circles s) \<Longrightarrow> pos (circles t ! k) = pos (circles s ! k)"
    and "\<And>k. k < length (circles s) \<Longrightarrow> mass (circles t ! k) = mass (circles s ! k)"
    and "springConstant t = springConstant s" and "springLength t = springLength s"
    and "0 < j" and "j < length (circles s)" and "circles t ! j = circles s ! j"
  shows "accelerated t dx j = accelerated s dx j"
  using assms
  by (simp add: accelerated_def dampen_then_weight_def Fbelow_def Fabove_def)

text \<open>
  The loop from index \<open>i\<close> on: the in-place updates of earlier nodes change velocities only,
  so every later node sees the forces of the starting state.
\<close>

lemma loop_spec:
  "0 < i \<or> skipped s 0 \<or> circles s = [] \<Longrightarrow>
   accelerateCircles_loop dx i s =
     Returned (s\<lparr>circles := map (\<lambda>j. if i \<le> j \<and> \<not> skipped s j then accelerated s dx j
                                       else circles s ! j) [0..<length (circles s)]\<rparr>)"
proof (induction dx i s rule: accelerateCircles_loop.induct)
  case (1 dx i s)
  let ?upd = "\<lambda>k u j. if k \<le> j \<and> \<not> skipped u j then accelerated u dx j else circles u ! j"
  show ?case
  proof (cases "i < length (circles s)")
    case False
    then have "map (?upd i s) [0..<length (circles s)] = circles s"
      by (intro nth_equalityI) auto
    with False show ?thesis by (subst accelerateCircles_loop.simps) simp
  next
    case len: True
    show ?thesis
    proof (cases "skipped s i")
      case True
      then have "accelerateCircles_loop dx i s = accelerateCircles_loop dx (i + 1) s"
        using len by (subst accelerateCircles_loop.simps) (simp add: skipped_def)
      also have "\<dots> = Returned (s\<lparr>circles := map (?upd (i + 1) s) [0..<length (circles s)]\<rparr>)"
        using "1.IH"(1) len True by (simp add: skipped_def)
      also have "map (?upd (i + 1) s) [0..<length (circles s)]
                 = map (?upd i s) [0..<length (circles s)]"
        using True by (intro nth_equalityI) (auto simp: le_less Suc_le_eq)
      finally show ?thesis .
    next
      case False
      with "1.prems" len have i0: "0 < i" by (cases i) auto
      let ?t = "s\<lparr>circles := (circles s)[i := accelerated s dx i]\<rparr>"
      have body: "accelerate s dx i = Some (accelerated s dx i)"
        using i0 len by (rule accelerate_Some)
      have sk: "skipped ?t = skipped s" by (simp add: skipped_def fun_eq_iff)
      have acc: "accelerated ?t dx j = accelerated s dx j" if "i < j" "j < length (circles s)" for j
        using that by (intro accelerated_cong) (auto simp: nth_list_update)
      have "accelerateCircles_loop dx i s = accelerateCircles_loop dx (i + 1) ?t"
        using len False body by (subst accelerateCircles_loop.simps) (simp add: skipped_def)
      also have "\<dots> = Returned (?t\<lparr>circles := map (?upd (i + 1) ?t) [0..<length (circles ?t)]\<rparr>)"
        using "1.IH"(2)[OF len _ body] False by (simp add: skipped_def)
      also have "map (?upd (i + 1) ?t) [0..<length (circles ?t)]
                 = map (?upd i s) [0..<length (circles s)]"
      proof (intro nth_equalityI)
        fix k assume "k < length (map (?upd (i + 1) ?t) [0..<length (circles ?t)])"
        then have k: "k < length (circles s)" by simp
        consider "k < i" | "k = i" | "i < k" by linarith
        then show "map (?upd (i + 1) ?t) [0..<length (circles ?t)] ! k
                   = map (?upd i s) [0..<length (circles s)] ! k"
        proof cases
          case 1 then show ?thesis using k by (simp add: sk)
        next
          case 2 then show ?thesis using k False by (simp add: sk)
        next
          case 3 then show ?thesis using k acc[OF 3 k] by (simp add: sk)
        qed
      qed simp
      finally show ?thesis by simp
    qed
  qed
qed

lemma loop_throws:
  "\<not> skipped s 0 \<Longrightarrow> circles s \<noteq> [] \<Longrightarrow> accelerateCircles_loop dx 0 s = Threw s"
  by (subst accelerateCircles_loop.simps) (simp add: skipped_def accelerate_0)

lemma skipped_prev [simp]: "skipped (s\<lparr>prev := a\<rparr>) = skipped s"
  by (simp add: skipped_def fun_eq_iff)

lemma accelerated_prev [simp]: "accelerated (s\<lparr>prev := a\<rparr>) dx i = accelerated s dx i"
  by (simp add: accelerated_def)

lemma accelerateCircles_eq:
  "accelerateCircles now s =
     (if can_integrate s
      then Returned (s\<lparr>prev := now, circles := snapshot s (clamp (of_int (now - prev s)) 0 17)\<rparr>)
      else Threw (s\<lparr>prev := now\<rparr>))"
proof -
  define dx where "dx = clamp (of_int (now - prev s)) 0 17"
  define t where "t = s\<lparr>prev := now\<rparr>"
  have unfold: "accelerateCircles now s = accelerateCircles_loop dx 0 t"
    by (simp add: accelerateCircles_def dx_def t_def)
  show ?thesis
  proof (cases "can_integrate s")
    case True
    then have "0 < (0::nat) \<or> skipped t 0 \<or> circles t = []"
      by (simp add: can_integrate_def t_def)
    from loop_spec[OF this, of dx]
    have "accelerateCircles_loop dx 0 t =
      Returned (t\<lparr>circles := map (\<lambda>j. if 0 \<le> j \<and> \<not> skipped t j then accelerated t dx j
                                       else circles t ! j) [0..<length (circles t)]\<rparr>)" .
    moreover have "map (\<lambda>j. if 0 \<le> j \<and> \<not> skipped t j then accelerated t dx j
                                       else circles t ! j) [0..<length (circles t)] = snapshot s dx"
      by (auto simp: snapshot_def t_def)
    ultimately show ?thesis
      using True unfolding unfold by (simp add: t_def dx_def)
  next
    case False
    then have "\<not> skipped t 0" "circles t \<noteq> []"
      by (simp_all add: can_integrate_def t_def)
    from loop_throws[OF this, of dx] False show ?thesis
      unfolding unfold by (simp add: t_def)
  qed
qed

lemma snapshot_nth:
  "i < length (circles s) \<Longrightarrow>
   snapshot s dx ! i = (if skipped s i then circles s ! i else accelerated s dx i)"
  by (simp add: snapshot_def)

lemma length_snapshot [simp]: "length (snapshot s dx) = length (circles s)"
  by (simp add: snapshot_def)

lemma net_force3_Some:
  assumes "0 < i" and "i < length (circles3 s)"
  shows "net_force3 s i =
    Some (weight_then_dampen (springConstant3 s) (springLength3 s) (g3 s) forceDampen
            (circles3 s) i)"
proof -
  have e: "element (circles3 s) (int i) = Some (circles3 s ! i)"
    "element (circles3 s) (int i - 1) = Some (circles3 s ! (i - 1))"
    using assms by (simp_all add: element_def nat_diff_distrib')
  have above: "getForceAbove3 s i =
      Some (Fabove (springConstant3 s) (springLength3 s) (circles3 s) i)"
    using e by (simp add: getForceAbove3_def Let_def springForceCircles3_def Fabove_def)
  have below: "getForceBelow3 s i =
      Some (appendY (Fbelow (springConstant3 s) (springLength3 s) (circles3 s) i)
              (mass (circles3 s ! i) * g3 s))"
  proof (cases "i + 1 < length (circles3 s)")
    case True
    then have "element (circles3 s) (int i + 1) = Some (circles3 s ! (i + 1))"
      by (simp add: element_def nat_add_distrib)
    with True e show ?thesis
      by (simp add: getForceBelow3_def Let_def springForceCircles3_def Fbelow_def appendY_def)
  next
    case False
    with e show ?thesis
      by (simp add: getForceBelow3_def Let_def Fbelow_def appendY_def)
  qed
  show ?thesis
    by (simp add: net_force3_def above below weight_then_dampen_def appendY_def divide_vec_def)
qed

text \<open>The three-node chain: node 1 hangs at rest length plus 40 on both sides.\<close>

lemma chain3_node1:
  "velocity (circles chain3 ! Suc 0) = Vector 0 0" "mass (circles chain3 ! Suc 0) = 1 / 2"
  "pos (circles chain3 ! Suc 0) = Vector 800 370" "prev chain3 = 1000"
  "length (circles chain3) = 3"
  by (simp_all add: chain3_def PhysicsCircle_def circleMass_def)

lemma chain3_force1:
  "dampen_then_weight (springConstant chain3) (springLength chain3) g forceDampen
     (circles chain3) (Suc 0) = Vector 0 (49 / 10)"
  by (simp add: dampen_then_weight_def Fbelow_def Fabove_def chain3_def PhysicsCircle_def
      circleMass_def g_def forceDampen_def)

lemma chain3_net_force1: "net_force chain3 (Suc 0) = Some (Vector 0 (49 / 10))"
  using net_force_Some [of "Suc 0" chain3] by (simp add: chain3_force1 chain3_node1)

section \<open>Where the weight enters the force\<close>

text \<open>
  C2, as the code has it. For a node inside the chain other than node 0, the version with
  \<open>updateNumCircles\<close> divides \<open>Fbelow - Fabove\<close> by the dampening constant and then adds the
  weight \<open>mass * g\<close> once to the y-component, undivided; the version with \<open>getForceBelow\<close>
  adds the weight once to \<open>Fbelow\<close> and divides the net force, weight included.
\<close>

theorem weight_placement:
  assumes "0 < i" and "i < length (circles s)" and "0 < j" and "j < length (circles3 u)"
  shows "net_force s i =
      Some (dampen_then_weight (springConstant s) (springLength s) g forceDampen (circles s) i)
    \<and> net_force3 u j =
      Some (weight_then_dampen (springConstant3 u) (springLength3 u) (g3 u) forceDampen
              (circles3 u) j)"
  using net_force_Some[OF assms(1,2)] net_force3_Some[OF assms(3,4)] by simp

theorem weight_placement_witness:
  "net_force chain3 1 = Some (Vector 0 (49 / 10)) \<and> net_force3 chain3' 1 = Some (Vector 0 (49 / 120))"
proof -
  have a: "0 < Suc 0" "Suc 0 < length (circles chain3)" "Suc 0 < length (circles3 chain3')"
    by (simp_all add: chain3_def chain3'_def)
  have f': "weight_then_dampen (springConstant3 chain3') (springLength3 chain3') (g3 chain3')
             forceDampen (circles3 chain3') (Suc 0) = Vector 0 (49 / 120)"
    by (simp add: weight_then_dampen_def Fbelow_def Fabove_def chain3_def chain3'_def
        PhysicsCircle_def circleMass_def forceDampen_def)
  from weight_placement [OF a(1,2) a(1) a(3)] show ?thesis
    by (simp add: chain3_force1 f')
qed

text \<open>
  C2, as the claim has it, fails in the version with \<open>updateNumCircles\<close>: on node 1 of the
  three-node chain the springs cancel, the code gives the full weight 4.9, and the claimed
  formula gives the weight divided by 12.
\<close>

theorem weight_placement_counterexample:
  "net_force chain3 1 = Some (Vector 0 (49 / 10))
   \<and> weight_then_dampen (springConstant chain3) (springLength chain3) g forceDampen
        (circles chain3) 1 = Vector 0 (49 / 120)
   \<and> Vector 0 (49 / 10) \<noteq> Vector 0 (49 / 120)"
proof -
  have "weight_then_dampen (springConstant chain3) (springLength chain3) g forceDampen
        (circles chain3) (Suc 0) = Vector 0 (49 / 120)"
    by (simp add: weight_then_dampen_def Fbelow_def Fabove_def chain3_def PhysicsCircle_def
        circleMass_def g_def forceDampen_def)
  with chain3_net_force1 show ?thesis by simp
qed

section \<open>The clamp of the time step\<close>



section \<open>The velocity update\<close>

text \<open>
  C5. When node 0 is pinned or is the dragged index, an integration step returns, and for
  every node \<open>i\<close> that is neither pinned nor the dragged index the force \<open>F\<close> is computed
  without a throw and the node gets the velocity \<open>(v + F / mass / 60 * dt) * 0.98\<close>, where
  \<open>v\<close>, \<open>F\<close> and \<open>mass\<close> are read in the state at the start of the step and \<open>dt\<close> is the
  elapsed time clamped to \<open>[0, 17]\<close>.
\<close>

theorem velocity_update:
  assumes "0 \<in> stationaryPoints s \<or> currentDragging s = 0"
    and "i < length (circles s)" and "i \<notin> stationaryPoints s" and "i \<noteq> currentDragging s"
  shows "returned (accelerateCircles now s)
    \<and> (\<exists>F. net_force s i = Some F
         \<and> velocity (circles (final (accelerateCircles now s)) ! i) =
             v_new (velocity (circles s ! i)) F (mass (circles s ! i))
               (clamp (of_int (now - prev s)) 0 17))"
proof -
  from assms(1) have c: "can_integrate s"
    by (auto simp: can_integrate_def skipped_def)
  from assms(3,4) have n: "\<not> skipped s i"
    by (simp add: skipped_def)
  from assms have "0 < i"
    by (cases i) auto
  from net_force_Some[OF this assms(2)] show ?thesis
    using c n assms(2)
    by (simp add: accelerateCircles_eq snapshot_nth accelerated_def)
qed

theorem velocity_update_witness:
  "returned (accelerateCircles 1016 chain3)
    \<and> net_force chain3 1 = Some (Vector 0 (49 / 10))
    \<and> velocity (circles (final (accelerateCircles 1016 chain3)) ! 1) = Vector 0 (4802 / 1875)"
proof -
  have a: "0 \<in> stationaryPoints chain3 \<or> currentDragging chain3 = 0"
    and b: "Suc 0 < length (circles chain3)" "Suc 0 \<notin> stationaryPoints chain3"
      "Suc 0 \<noteq> currentDragging chain3"
    by (simp_all add: chain3_def)
  from velocity_update [OF a b, of 1016] show ?thesis
    by (simp add: chain3_net_force1 chain3_node1 clamp_def v_new_def)
qed

section \<open>One frame\<close>

text \<open>
  C6. When node 0 is pinned or is the dragged index, a frame returns; its velocity phase
  gives every node the value computed from the state at the start of the frame and changes
  no position; and after the frame every node has that velocity and the position it had at
  the start plus that velocity.
\<close>

theorem frame_uses_snapshot:
  assumes "0 \<in> stationaryPoints s \<or> currentDragging s = 0"
  shows "returned (frame now s)
    \<and> circles (final (accelerateCircles now s)) = snapshot s (clamp (of_int (now - prev s)) 0 17)
    \<and> map pos (circles (final (accelerateCircles now s))) = map pos (circles s)
    \<and> length (circles (final (frame now s))) = length (circles s)
    \<and> (\<forall>i < length (circles s).
          velocity (circles (final (frame now s)) ! i) =
            velocity (snapshot s (clamp (of_int (now - prev s)) 0 17) ! i)
        \<and> pos (circles (final (frame now s)) ! i) =
            Vector (vx (pos (circles s ! i))
                      + vx (velocity (snapshot s (clamp (of_int (now - prev s)) 0 17) ! i)))
                   (vy (pos (circles s ! i))
                      + vy (velocity (snapshot s (clamp (of_int (now - prev s)) 0 17) ! i))))"
proof -
  define dt where "dt = clamp (of_int (now - prev s)) 0 17"
  from assms have c: "can_integrate s"
    by (auto simp: can_integrate_def skipped_def)
  have a: "accelerateCircles now s = Returned (s\<lparr>prev := now, circles := snapshot s dt\<rparr>)"
    using c by (simp add: accelerateCircles_eq dt_def)
  have p: "pos (snapshot s dt ! i) = pos (circles s ! i)" if "i < length (circles s)" for i
    using that by (simp add: snapshot_nth)
  have "map pos (snapshot s dt) = map pos (circles s)"
    by (rule nth_equalityI) (simp_all add: p)
  then show ?thesis
    unfolding dt_def[symmetric] by (simp add: a frame_def move_def p)
qed

theorem frame_uses_snapshot_witness:
  "returned (frame 1016 chain3)
   \<and> map pos (circles (final (accelerateCircles 1016 chain3))) =
       [Vector 800 250, Vector 800 370, Vector 800 490]
   \<and> velocity (circles (final (frame 1016 chain3)) ! 1) = Vector 0 (4802 / 1875)
   \<and> pos (circles (final (frame 1016 chain3)) ! 1) = Vector 800 (370 + 4802 / 1875)"
proof -
  have a: "0 \<in> stationaryPoints chain3 \<or> currentDragging chain3 = 0"
    by (simp add: chain3_def)
  have n: "\<not> skipped chain3 (Suc 0)"
    by (simp add: skipped_def chain3_def)
  have m: "map pos (circles chain3) = [Vector 800 250, Vector 800 370, Vector 800 490]"
    by (simp add: chain3_def PhysicsCircle_def)
  have v: "velocity (snapshot chain3 16 ! Suc 0) = Vector 0 (4802 / 1875)"
    using n by (simp add: snapshot_nth accelerated_def chain3_force1 chain3_node1 v_new_def)
  have dt: "clamp (of_int (1016 - prev chain3)) 0 17 = 16"
    by (simp add: chain3_node1 clamp_def)
  note t = frame_uses_snapshot [OF a, of 1016, unfolded dt]
  from t have r: "returned (frame 1016 chain3)"
    by blast
  from t have p: "map pos (circles (final (accelerateCircles 1016 chain3))) = map pos (circles chain3)"
    by blast
  from t have "velocity (circles (final (frame 1016 chain3)) ! Suc 0) =
        velocity (snapshot chain3 16 ! Suc 0)
      \<and> pos (circles (final (frame 1016 chain3)) ! Suc 0) =
        Vector (vx (pos (circles chain3 ! Suc 0)) + vx (velocity (snapshot chain3 16 ! Suc 0)))
               (vy (pos (circles chain3 ! Suc 0)) + vy (velocity (snapshot chain3 16 ! Suc 0)))"
    by (simp add: chain3_node1)
  with r p show ?thesis
    by (simp add: chain3_node1 m v)
qed

section \<open>Resize\<close>

lemma clone_id [simp]: "clone a = a"
  by (cases a) (simp add: clone_def)

lemma appended_snoc [simp]: "appended (cs @ [appended cs]) = appended cs"
  by (simp add: appended_def)

text \<open>The \<open>while\<close> loop in closed form.\<close>

lemma updateNumCircles_loop_eq:
  "updateNumCircles_loop num s =
     (if numCircles s < num
      then (if circles s = [] then Threw s
            else Returned (s\<lparr>circles := circles s @
                               replicate (nat (num - numCircles s)) (appended (circles s)),
                             numCircles := num\<rparr>))
      else Returned s)"
proof (induction num s rule: updateNumCircles_loop.induct)
  case (1 num s)
  show ?case
  proof (cases "numCircles s < num \<and> circles s \<noteq> []")
    case False
    then show ?thesis
      by (subst updateNumCircles_loop.simps) auto
  next
    case True
    let ?t = "s\<lparr>circles := circles s @ [appended (circles s)], numCircles := numCircles s + 1\<rparr>"
    have t: "PhysicsCircle circleMass (pos (last (circles s))) circleRadius = appended (circles s)"
      by (simp add: PhysicsCircle_def appended_def)
    have step: "updateNumCircles_loop num s = updateNumCircles_loop num ?t"
      using True by (subst updateNumCircles_loop.simps) (simp add: t)
    have ih: "updateNumCircles_loop num ?t =
       (if numCircles ?t < num
        then (if circles ?t = [] then Threw ?t
              else Returned (?t\<lparr>circles := circles ?t @
                               replicate (nat (num - numCircles ?t)) (appended (circles ?t)),
                             numCircles := num\<rparr>))
        else Returned ?t)"
      using "1.IH" True by (simp add: t)
    show ?thesis
    proof (cases "numCircles s + 1 < num")
      case True
      then have "nat (num - numCircles s) = Suc (nat (num - (numCircles s + 1)))"
        by simp
      then have "replicate (nat (num - numCircles s)) (appended (circles s)) =
          appended (circles s) # replicate (nat (num - (numCircles s + 1))) (appended (circles s))"
        by simp
      with True \<open>numCircles s < num \<and> circles s \<noteq> []\<close> show ?thesis
        unfolding step ih by simp
    next
      case False
      with True have "num = numCircles s + 1" by simp
      with True show ?thesis
        unfolding step ih by simp
    qed
  qed
qed

lemma updateNumCircles_eq:
  "updateNumCircles num s =
     (if numCircles s < num
      then (if circles s = [] then Threw s
            else Returned (s\<lparr>circles := circles s @
                               replicate (nat (num - numCircles s)) (appended (circles s)),
                             numCircles := num\<rparr>))
      else if num < numCircles s
      then Returned (s\<lparr>numCircles := num, circles := splice_keep (circles s) num\<rparr>)
      else Returned s)"
  by (simp add: updateNumCircles_def updateNumCircles_loop_eq)

lemma updateNumCircles_ok:
  assumes "chain_ok s" and "1 \<le> n"
  shows "updateNumCircles n s =
     Returned (s\<lparr>circles := (if int (length (circles s)) < n
                               then circles s @ replicate (nat n - length (circles s))
                                                  (appended (circles s))
                               else take (nat n) (circles s)),
                  numCircles := n\<rparr>)"
proof -
  from assms have n: "numCircles s = int (length (circles s))" and e: "circles s \<noteq> []"
    by (simp_all add: chain_ok_def)
  consider "int (length (circles s)) < n" | "n < int (length (circles s))"
    | "n = int (length (circles s))"
    by linarith
  then show ?thesis
  proof cases
    case 1
    then have "nat (n - int (length (circles s))) = nat n - length (circles s)"
      by simp
    with 1 e show ?thesis
      by (simp add: updateNumCircles_eq n)
  next
    case 2
    with assms(2) show ?thesis
      by (simp add: updateNumCircles_eq n splice_keep_def)
  next
    case 3
    then show ?thesis
      by (simp add: updateNumCircles_eq n)
  qed
qed

lemma updateNumCircles_chain_ok:
  assumes "chain_ok s" and "1 \<le> n"
  shows "chain_ok (final (updateNumCircles n s))"
    and "length (circles (final (updateNumCircles n s))) = nat n"
  using assms by (auto simp: updateNumCircles_ok chain_ok_def)

lemma updateNumCircles_idem:
  "updateNumCircles n (final (updateNumCircles n s)) = updateNumCircles n s"
  by (simp add: updateNumCircles_eq)

lemma updateNumCircles_nth:
  assumes "i < length (circles s)" and "i < length (circles (final (updateNumCircles n s)))"
  shows "circles (final (updateNumCircles n s)) ! i = circles s ! i"
  using assms by (auto simp: updateNumCircles_eq splice_keep_def nth_append split: if_splits)

lemma updateNumCircles_shrinks:
  "n < numCircles s \<Longrightarrow>
   length (circles (final (updateNumCircles n s))) \<le> length (circles s)"
  by (auto simp: updateNumCircles_eq splice_keep_def)

lemma updateNumCircles_counter:
  "returned (updateNumCircles n s) \<Longrightarrow> numCircles (final (updateNumCircles n s)) = n"
  by (auto simp: updateNumCircles_eq split: if_splits)

lemma updateNumCircles_threw:
  "\<not> returned (updateNumCircles n s) \<Longrightarrow> circles (final (updateNumCircles n s)) = []"
  by (auto simp: updateNumCircles_eq split: if_splits)

text \<open>
  C8. A second \<open>Resize(n)\<close> changes nothing, and after \<open>Resize(n + 1)\<close> and then \<open>Resize(n)\<close>
  every node that is still there is the original node of that index: both in every state.
  On a well-formed chain and for \<open>n \<ge> 1\<close> the calls return, \<open>Resize(n + 1)\<close> and then
  \<open>Resize(n)\<close> leave \<open>n\<close> nodes, and give back the very state when the chain had \<open>n\<close> nodes;
  a growing \<open>Resize(n)\<close> appends nodes that all have the position of the last node, zero
  velocity and the default mass; and the resized chain is well-formed again.
\<close>

theorem resize_round_trip:
  "updateNumCircles n (final (updateNumCircles n s)) = updateNumCircles n s
   \<and> (\<forall>i < length (circles s).
         i < length (circles (final (updateNumCircles n (final (updateNumCircles (n + 1) s))))) \<longrightarrow>
         circles (final (updateNumCircles n (final (updateNumCircles (n + 1) s)))) ! i
           = circles s ! i)
   \<and> (chain_ok s \<and> 1 \<le> n \<longrightarrow>
         returned (updateNumCircles n s)
       \<and> chain_ok (final (updateNumCircles n s))
       \<and> returned (updateNumCircles (n + 1) s)
       \<and> returned (updateNumCircles n (final (updateNumCircles (n + 1) s)))
       \<and> length (circles (final (updateNumCircles n (final (updateNumCircles (n + 1) s))))) = nat n
       \<and> (int (length (circles s)) = n \<longrightarrow>
             final (updateNumCircles n (final (updateNumCircles (n + 1) s))) = s)
       \<and> (int (length (circles s)) < n \<longrightarrow>
             circles (final (updateNumCircles n s)) =
               circles s @ replicate (nat n - length (circles s))
                 \<lparr>pos = pos (last (circles s)), velocity = Vector 0 0, mass = circleMass,
                  radius = circleRadius\<rparr>))"
proof -
  define s1 where "s1 = final (updateNumCircles (n + 1) s)"
  define s2 where "s2 = final (updateNumCircles n s1)"
  have prefix: "circles s2 ! i = circles s ! i"
    if i: "i < length (circles s)" "i < length (circles s2)" for i
  proof (cases "returned (updateNumCircles (n + 1) s)")
    case True
    then have "n < numCircles s1"
      unfolding s1_def by (simp add: updateNumCircles_counter)
    then have "length (circles s2) \<le> length (circles s1)"
      unfolding s2_def by (rule updateNumCircles_shrinks)
    with i have i1: "i < length (circles s1)" by simp
    have "circles s2 ! i = circles s1 ! i"
      unfolding s2_def using i1 i(2)[unfolded s2_def] by (rule updateNumCircles_nth)
    also have "\<dots> = circles s ! i"
      unfolding s1_def using i(1) i1[unfolded s1_def] by (rule updateNumCircles_nth)
    finally show ?thesis .
  next
    case False
    then have "circles s1 = []"
      unfolding s1_def by (rule updateNumCircles_threw)
    moreover have "circles s1 = circles s"
      using False by (auto simp: s1_def updateNumCircles_eq split: if_splits)
    ultimately show ?thesis
      using i by simp
  qed
  have wf: "returned (updateNumCircles n s)
       \<and> chain_ok (final (updateNumCircles n s))
       \<and> returned (updateNumCircles (n + 1) s)
       \<and> returned (updateNumCircles n s1)
       \<and> length (circles s2) = nat n
       \<and> (int (length (circles s)) = n \<longrightarrow> s2 = s)
       \<and> (int (length (circles s)) < n \<longrightarrow>
             circles (final (updateNumCircles n s)) =
               circles s @ replicate (nat n - length (circles s)) (appended (circles s)))"
    if ok: "chain_ok s" and n: "1 \<le> n"
  proof -
    from n have n1: "1 \<le> n + 1" by simp
    have ok1: "chain_ok s1" and l1: "length (circles s1) = nat (n + 1)"
      unfolding s1_def by (rule updateNumCircles_chain_ok[OF ok n1])+
    have r2: "updateNumCircles n s1 = Returned (s1\<lparr>circles := take (nat n) (circles s1),
                                                    numCircles := n\<rparr>)"
      using n by (simp add: updateNumCircles_ok[OF ok1 n] l1)
    have len2: "length (circles s2) = nat n"
      using n by (simp add: s2_def r2 l1)
    have restored: "s2 = s" if "int (length (circles s)) = n"
    proof -
      from that have l: "length (circles s) = nat n" by simp
      from ok that have m: "numCircles s = n" by (simp add: chain_ok_def)
      have "s1 = s\<lparr>circles := circles s @ [appended (circles s)], numCircles := n + 1\<rparr>"
        using that n l
        by (simp add: s1_def updateNumCircles_ok[OF ok n1] nat_add_distrib)
      moreover have "s2 = s1\<lparr>circles := take (nat n) (circles s1), numCircles := n\<rparr>"
        by (simp add: s2_def r2)
      ultimately have "s2 = s\<lparr>circles := circles s, numCircles := n\<rparr>"
        using l by simp
      with m show ?thesis by simp
    qed
    have grow: "circles (final (updateNumCircles n s)) =
        circles s @ replicate (nat n - length (circles s)) (appended (circles s))"
      if "int (length (circles s)) < n"
      using that by (simp add: updateNumCircles_ok[OF ok n])
    have "returned (updateNumCircles n s)" "returned (updateNumCircles (n + 1) s)"
      by (simp_all add: updateNumCircles_ok[OF ok n] updateNumCircles_ok[OF ok n1])
    moreover have "returned (updateNumCircles n s1)"
      by (simp add: r2)
    moreover note updateNumCircles_chain_ok(1)[OF ok n]
    ultimately show ?thesis
      using len2 restored grow by blast
  qed
  from updateNumCircles_idem[of n s] prefix wf show ?thesis
    unfolding s2_def s1_def appended_def by blast
qed

theorem resize_round_trip_witness:
  "chain_ok chain3
   \<and> final (updateNumCircles 3 (final (updateNumCircles 4 chain3))) = chain3
   \<and> length (circles (final (updateNumCircles 2 (final (updateNumCircles 3 chain3))))) = 2
   \<and> circles (final (updateNumCircles 2 (final (updateNumCircles 3 chain3)))) ! 1
       = circles chain3 ! 1
   \<and> circles (final (updateNumCircles 5 chain3)) =
       circles chain3 @ [\<lparr>pos = Vector 800 490, velocity = Vector 0 0, mass = circleMass,
                           radius = circleRadius\<rparr>,
                         \<lparr>pos = Vector 800 490, velocity = Vector 0 0, mass = circleMass,
                           radius = circleRadius\<rparr>]"
proof -
  have ok: "chain_ok chain3"
    by (simp add: chain_ok_def chain3_def)
  have l: "last (circles chain3) = PhysicsCircle circleMass (Vector 800 490) circleRadius"
    by (simp add: chain3_def)
  from resize_round_trip [of 3 chain3] ok
  have "final (updateNumCircles 3 (final (updateNumCircles 4 chain3))) = chain3"
    by (simp add: chain3_node1)
  moreover
  from resize_round_trip [of 2 chain3] ok
  have two: "length (circles (final (updateNumCircles 2 (final (updateNumCircles 3 chain3))))) = 2"
    by simp
  moreover
  from resize_round_trip [of 2 chain3] two
  have "circles (final (updateNumCircles 2 (final (updateNumCircles 3 chain3)))) ! Suc 0
       = circles chain3 ! Suc 0"
    by (simp add: chain3_node1)
  moreover
  from resize_round_trip [of 5 chain3] ok
  have "circles (final (updateNumCircles 5 chain3)) =
      circles chain3 @ replicate (nat 5 - 3)
         \<lparr>pos = pos (last (circles chain3)), velocity = Vector 0 0, mass = circleMass,
               radius = circleRadius\<rparr>"
    by (simp add: chain3_node1)
  ultimately show ?thesis
    using ok by (simp add: numeral_2_eq_2 l PhysicsCircle_def)
qed

section \<open>Stale indices after a shrink\<close>

lemma pinned2_reached: "mousedown 800 490 (keydown ''Shift'' chain3) = Returned pinned2"
proof -
  have "getClosestPointIndex (keydown ''Shift'' chain3) (Vector 800 490) = 2"
    by (simp add: keydown_def getClosestPointIndex_def getClosestPointIndex_loop.simps
        distance_def chain3_def PhysicsCircle_def)
  then show ?thesis
    by (simp add: mousedown_def keydown_def pointer_def Let_def set_velocity_def pinned2_def
        chain3_def PhysicsCircle_def insert_commute)
qed

text \<open>
  C7, as the code has it. A resize changes neither the pinned set nor the dragged index nor
  the drag flag, whatever the new count; and with node 0 pinned or dragged the integration
  step after the resize returns, that is, it reads no node outside the array: a stale index
  is only ever compared with the loop index.
\<close>

theorem resize_keeps_indices:
  "stationaryPoints (final (updateNumCircles num s)) = stationaryPoints s
   \<and> currentDragging (final (updateNumCircles num s)) = currentDragging s
   \<and> dragging (final (updateNumCircles num s)) = dragging s
   \<and> (0 \<in> stationaryPoints s \<or> currentDragging s = 0 \<longrightarrow>
        returned (accelerateCircles now (final (updateNumCircles num s)))
        \<and> length (circles (final (accelerateCircles now (final (updateNumCircles num s)))))
            = length (circles (final (updateNumCircles num s))))"
proof -
  define s' where "s' = final (updateNumCircles num s)"
  have same: "stationaryPoints s' = stationaryPoints s" "currentDragging s' = currentDragging s"
    "dragging s' = dragging s"
    by (simp_all add: s'_def updateNumCircles_eq)
  have "returned (accelerateCircles now s')
      \<and> length (circles (final (accelerateCircles now s'))) = length (circles s')"
    if "0 \<in> stationaryPoints s \<or> currentDragging s = 0"
  proof -
    from that same have "can_integrate s'"
      by (auto simp: can_integrate_def skipped_def)
    then show ?thesis
      by (simp add: accelerateCircles_eq)
  qed
  with same show ?thesis
    unfolding s'_def by blast
qed

theorem resize_keeps_indices_witness:
  "stationaryPoints (final (updateNumCircles 2 pinned2)) = {0, 2}
   \<and> currentDragging (final (updateNumCircles 2 pinned2)) = 2
   \<and> returned (accelerateCircles 1016 (final (updateNumCircles 2 pinned2)))"
proof -
  have p: "stationaryPoints pinned2 = {0, 2}" "currentDragging pinned2 = 2"
    by (simp_all add: pinned2_def)
  from resize_keeps_indices [of 2 pinned2 1016] show ?thesis
    by (simp add: p)
qed

text \<open>
  C7, as the claim has it, fails: with node 2 pinned by a shift-click, a resize to two nodes
  returns and leaves index 2 both in the pinned set and as the dragged index.
\<close>

theorem resize_keeps_indices_counterexample:
  "returned (updateNumCircles 2 pinned2)
   \<and> length (circles (final (updateNumCircles 2 pinned2))) = 2
   \<and> 2 \<in> stationaryPoints (final (updateNumCircles 2 pinned2))
   \<and> currentDragging (final (updateNumCircles 2 pinned2)) = 2"
proof -
  have "numCircles pinned2 = 3" "length (circles pinned2) = 3"
    by (simp_all add: pinned2_def chain3_def)
  then show ?thesis
    by (simp add: updateNumCircles_eq splice_keep_def pinned2_def)
qed

section \<open>Reset\<close>

lemma generatePoints_loop_eq:
  "0 \<le> i \<Longrightarrow>
   generatePoints_loop p num i res =
     res @ map (\<lambda>k. PhysicsCircle circleMass (Vector (vx p) (real k * circleGap + vy p))
                      circleRadius) [nat i..<nat num]"
proof (induction p num i res rule: generatePoints_loop.induct)
  case (1 p num i res)
  show ?case
  proof (cases "i < num")
    case True
    with "1.prems" have "[nat i..<nat num] = nat i # [nat (i + 1)..<nat num]"
      by (simp add: upt_conv_Cons nat_add_distrib)
    moreover from "1.prems" have "real_of_int i = real (nat i)"
      by simp
    ultimately show ?thesis
      using "1.IH" True "1.prems" by (subst generatePoints_loop.simps) simp
  next
    case False
    with "1.prems" show ?thesis
      by (subst generatePoints_loop.simps) simp
  qed
qed

lemma generatePoints_eq:
  "generatePoints p num =
     map (\<lambda>k. PhysicsCircle circleMass (Vector (vx p) (real k * circleGap + vy p)) circleRadius)
       [0..<nat num]"
  by (simp add: generatePoints_def generatePoints_loop_eq)

text \<open>
  C9 on the code. \<open>resetCircles\<close> sets the pinned set to \<open>{0}\<close> and rebuilds \<open>numCircles\<close>
  nodes at rest below \<open>(800, 250)\<close>, 120 apart, but it assigns neither the dragged index nor
  the drag flag, in either version. After a shift-click has pinned node 2 and a reset has
  unpinned it, index 2 is still the dragged index: the next frame skips node 2, which stays
  where it is with velocity zero, while the same chain with the dragged index at 0 pulls
  it upwards.
\<close>

theorem reset_keeps_dragged_index:
  "stationaryPoints (resetCircles s) = {0}
   \<and> circles (resetCircles s) =
       map (\<lambda>k. \<lparr>pos = Vector 800 (real k * 120 + 250), velocity = Vector 0 0,
                  mass = circleMass, radius = circleRadius\<rparr>) [0..<nat (numCircles s)]
   \<and> currentDragging (resetCircles s) = currentDragging s
   \<and> dragging (resetCircles s) = dragging s
   \<and> currentDragging3 (resetCircles3 u) = currentDragging3 u
   \<and> currentDragging (resetCircles pinned2) = 2
   \<and> \<not> dragging (resetCircles pinned2)
   \<and> 2 \<notin> stationaryPoints (resetCircles pinned2)
   \<and> velocity (circles (final (frame 1016 (resetCircles pinned2))) ! 2) = Vector 0 0
   \<and> pos (circles (final (frame 1016 (resetCircles pinned2))) ! 2) = Vector 800 490
   \<and> velocity (circles (final (frame 1016 chain3)) ! 2) = Vector 0 (- (24794 / 5625))"
proof -
  have general: "stationaryPoints (resetCircles s) = {0}"
    "circles (resetCircles s) =
       map (\<lambda>k. \<lparr>pos = Vector 800 (real k * 120 + 250), velocity = Vector 0 0,
                  mass = circleMass, radius = circleRadius\<rparr>) [0..<nat (numCircles s)]"
    "currentDragging (resetCircles s) = currentDragging s"
    "dragging (resetCircles s) = dragging s"
    "currentDragging3 (resetCircles3 u) = currentDragging3 u"
    by (simp_all add: resetCircles_def resetCircles3_def generatePoints_eq PhysicsCircle_def
        circleGap_def)
  define r where "r = resetCircles pinned2"
  have cs: "circles r = circles chain3"
    by (simp add: r_def resetCircles_def pinned2_def chain3_def generatePoints_def
        generatePoints_loop.simps circleGap_def)
  have r: "currentDragging r = 2" "\<not> dragging r" "stationaryPoints r = {0}"
    by (simp_all add: r_def resetCircles_def pinned2_def chain3_def)
  have node2: "circles chain3 ! 2 = PhysicsCircle circleMass (Vector 800 490) circleRadius"
    "length (circles chain3) = 3"
    by (simp_all add: chain3_def)
  have "can_integrate r" "skipped r 2"
    by (simp_all add: can_integrate_def skipped_def r)
  then have frozen: "circles (final (frame 1016 r)) ! 2 = circles chain3 ! 2"
    by (simp add: frame_def accelerateCircles_eq cs node2 snapshot_nth move_def
        PhysicsCircle_def)
  have "can_integrate chain3" "\<not> skipped chain3 2"
    by (simp_all add: can_integrate_def skipped_def chain3_def)
  moreover have "dampen_then_weight (springConstant chain3) (springLength chain3) g forceDampen
      (circles chain3) 2 = Vector 0 (- (253 / 30))"
    by (simp add: dampen_then_weight_def Fbelow_def Fabove_def chain3_def PhysicsCircle_def
        circleMass_def g_def forceDampen_def)
  ultimately have moving:
    "velocity (circles (final (frame 1016 chain3)) ! 2) = Vector 0 (- (24794 / 5625))"
    by (simp add: frame_def accelerateCircles_eq node2 snapshot_nth move_def accelerated_def
        v_new_def PhysicsCircle_def chain3_node1 clamp_def circleMass_def)
  from general r frozen moving show ?thesis
    unfolding r_def by (simp add: node2 PhysicsCircle_def)
qed

section \<open>Pointer events and frames\<close>

text \<open>The picked index is inside the array, or 0 when the array is empty.\<close>

lemma closest_loop_bound:
  "getClosestPointIndex_loop cs p i res < length cs \<or> getClosestPointIndex_loop cs p i res = res"
proof (induction cs p i res rule: getClosestPointIndex_loop.induct)
  case (1 cs p i res)
  show ?case
  proof (cases "i < length cs")
    case True
    with "1.IH" show ?thesis
      by (subst (1 2) getClosestPointIndex_loop.simps) (auto split: if_splits)
  next
    case False
    then show ?thesis
      by (subst (1 2) getClosestPointIndex_loop.simps) simp
  qed
qed

lemma closest_bound:
  "getClosestPointIndex s p < length (circles s) \<or> getClosestPointIndex s p = 0"
  unfolding getClosestPointIndex_def by (rule closest_loop_bound)

text \<open>What the handlers leave alone.\<close>

lemma frame_eq:
  "frame now s =
     (if can_integrate s
      then Returned (s\<lparr>prev := now,
             circles := map (\<lambda>circle. move circle (velocity circle))
                          (snapshot s (clamp (of_int (now - prev s)) 0 17))\<rparr>)
      else Threw (s\<lparr>prev := now\<rparr>))"
  by (simp add: frame_def accelerateCircles_eq)

lemma frame_fields [simp]:
  "stationaryPoints (final (frame now s)) = stationaryPoints s"
  "currentDragging (final (frame now s)) = currentDragging s"
  "dragging (final (frame now s)) = dragging s"
  "length (circles (final (frame now s))) = length (circles s)"
  by (simp_all add: frame_eq)

lemma mousemove_fields [simp]:
  "stationaryPoints (final (mousemove x y s)) = stationaryPoints s"
  "currentDragging (final (mousemove x y s)) = currentDragging s"
  "dragging (final (mousemove x y s)) = dragging s"
  "length (circles (final (mousemove x y s))) = length (circles s)"
  by (simp_all add: mousemove_def move_circle_def Let_def)

lemma mouseup_fields [simp]:
  "stationaryPoints (final (mouseup x y s)) = stationaryPoints s"
  "length (circles (final (mouseup x y s))) = length (circles s)"
  by (simp_all add: mouseup_def set_velocity_def Let_def)

lemma mousedown_length [simp]:
  "length (circles (final (mousedown x y s))) = length (circles s)"
  by (simp add: mousedown_def set_velocity_def Let_def)

lemma key_fields [simp]:
  "stationaryPoints (keydown k s) = stationaryPoints s"
  "currentDragging (keydown k s) = currentDragging s"
  "dragging (keydown k s) = dragging s"
  "circles (keydown k s) = circles s"
  "stationaryPoints (keyup k s) = stationaryPoints s"
  "currentDragging (keyup k s) = currentDragging s"
  "dragging (keyup k s) = dragging s"
  "circles (keyup k s) = circles s"
  by (simp_all add: keydown_def keyup_def)

lemma handle_length [simp]: "length (circles (final (handle e s))) = length (circles s)"
  by (cases e) simp_all

lemma run_length [simp]: "length (circles (run es s)) = length (circles s)"
  by (induction es arbitrary: s) simp_all





text \<open>Node 0 cannot be unpinned: a shift-click on it returns at once.\<close>

lemma anchor_pinned_step:
  "0 \<in> stationaryPoints s \<Longrightarrow> 0 \<in> stationaryPoints (final (handle e s))"
  by (cases e) (auto simp: mousedown_def set_velocity_def Let_def)

lemma anchor_pinned_run:
  "0 \<in> stationaryPoints s \<Longrightarrow> 0 \<in> stationaryPoints (run es s)"
  by (induction es arbitrary: s) (simp_all add: anchor_pinned_step)

lemma anchor_pinned_resize:
  "stationaryPoints (final (updateNumCircles n s)) = stationaryPoints s"
  "0 \<in> stationaryPoints (resetCircles s)"
  by (simp_all add: updateNumCircles_eq resetCircles_def)

lemma drag_index_ok_step:
  assumes "drag_index_ok s"
  shows "drag_index_ok (final (handle e s))"
proof (cases e)
  case (MouseDown x y)
  from closest_bound[of s "pointer s x y"] MouseDown show ?thesis
    by (auto simp: drag_index_ok_def mousedown_def set_velocity_def Let_def)
next
  case (MouseUp x y)
  with assms show ?thesis
    by (auto simp: drag_index_ok_def mouseup_def set_velocity_def Let_def)
next
  case (MouseMove x y)
  with assms show ?thesis by (simp add: drag_index_ok_def)
next
  case (KeyDown k)
  with assms show ?thesis by (simp add: drag_index_ok_def)
next
  case (KeyUp k)
  with assms show ?thesis by (simp add: drag_index_ok_def)
next
  case (Frame now)
  with assms show ?thesis by (simp add: drag_index_ok_def)
qed

lemma drag_index_ok_run: "drag_index_ok s \<Longrightarrow> drag_index_ok (run es s)"
  by (induction es arbitrary: s) (simp_all add: drag_index_ok_step)


text \<open>The claimed property of idle states, and what keeps it.\<close>

lemma drag_index_ok_iff:
  "drag_index_ok s \<longleftrightarrow>
     idle_index_ok s
     \<and> (dragging s \<longrightarrow> currentDragging s < length (circles s) \<or> currentDragging s = 0
                        \<or> currentDragging s \<in> stationaryPoints s)"
  by (auto simp: drag_index_ok_def idle_index_ok_def)

lemma stale_mouseup:
  assumes "dragging s" and "\<not> currentDragging s < length (circles s)"
  shows "mouseup x y s = Threw (s\<lparr>dragging := False\<rparr>)"
  using assms by (simp add: mouseup_def set_velocity_def Let_def)

lemma dragged1_fields:
  "dragging dragged1" "currentDragging dragged1 = 1" "stationaryPoints dragged1 = {0}"
  "circles dragged1 = circles chain3" "mousePos dragged1 = Vector 800 370" "ratio dragged1 = 1"
  by (simp_all add: dragged1_def chain3_def)

lemma chain3_fields:
  "\<not> dragging chain3" "currentDragging chain3 = 0" "stationaryPoints chain3 = {0}"
  "\<not> pressingShift chain3" "ratio chain3 = 1"
  "pos (circles chain3 ! 0) = Vector 800 250" "velocity (circles chain3 ! 0) = Vector 0 0"
  by (simp_all add: chain3_def PhysicsCircle_def)

lemma pinned2_fields:
  "\<not> dragging pinned2" "currentDragging pinned2 = 2" "stationaryPoints pinned2 = {0, 2}"
  "circles pinned2 = circles chain3"
  by (simp_all add: pinned2_def chain3_def)



lemma stale_drag_fields:
  "dragging stale_drag" "currentDragging stale_drag = 2" "stationaryPoints stale_drag = {0}"
  "length (circles stale_drag) = 2" "ratio stale_drag = 1"
  "map velocity (circles stale_drag) = [Vector 0 0, Vector 0 0]"
  by (simp_all add: stale_drag_def chain3_def PhysicsCircle_def)

text \<open>The state with the removed node grabbed is reached from the page.\<close>

lemma stale_drag_reached:
  "final (updateNumCircles 2 (run [MouseMove 800 490, MouseDown 800 490] chain3)) = stale_drag"
proof -
  define s where "s = final (mousemove 800 490 chain3)"
  have s: "s = chain3\<lparr>mousePos := Vector 800 490\<rparr>"
    by (simp add: s_def mousemove_def pointer_def Let_def chain3_def)
  have "getClosestPointIndex s (Vector 800 490) = 2"
    by (simp add: s getClosestPointIndex_def getClosestPointIndex_loop.simps
        distance_def chain3_def PhysicsCircle_def)
  then have "final (mousedown 800 490 s) =
      chain3\<lparr>currentDragging := 2, dragging := True, mousePos := Vector 800 490\<rparr>"
    by (simp add: s mousedown_def pointer_def Let_def set_velocity_def chain3_def
        PhysicsCircle_def)
  then have "run [MouseMove 800 490, MouseDown 800 490] chain3 =
      chain3\<lparr>currentDragging := 2, dragging := True, mousePos := Vector 800 490\<rparr>"
    by (simp add: s_def)
  then show ?thesis
    by (simp add: updateNumCircles_eq splice_keep_def stale_drag_def chain3_def)
qed

section \<open>Release of a dragged node\<close>

text \<open>
  C4, as the code has it. A mouse-up during a drag of a node that exists returns, sets that
  node's velocity to twice the pointer's displacement since the last recorded pointer
  position and leaves every other node and the node's position alone, sets the dragged
  index back to 0 and ends the drag. A mouse-up during a drag of an index outside the
  chain ends the drag and throws: no velocity is set and the dragged index stays.
\<close>

theorem flick_impulse:
  assumes "dragging s"
  shows "(currentDragging s < length (circles s) \<longrightarrow>
        returned (mouseup offsetX offsetY s)
      \<and> velocity (circles (final (mouseup offsetX offsetY s)) ! currentDragging s) =
          Vector (2 * (offsetX * ratio s - vx (mousePos s)))
                 (2 * (offsetY * ratio s - vy (mousePos s)))
      \<and> circles (final (mouseup offsetX offsetY s)) =
          (circles s)[currentDragging s := (circles s ! currentDragging s)
             \<lparr>velocity := Vector (2 * (offsetX * ratio s - vx (mousePos s)))
                                 (2 * (offsetY * ratio s - vy (mousePos s)))\<rparr>]
      \<and> currentDragging (final (mouseup offsetX offsetY s)) = 0
      \<and> \<not> dragging (final (mouseup offsetX offsetY s)))
    \<and> (length (circles s) \<le> currentDragging s \<longrightarrow>
        mouseup offsetX offsetY s = Threw (s\<lparr>dragging := False\<rparr>))"
  using assms
  by (simp add: mouseup_def set_velocity_def Let_def pointer_def sub_def multiply_def
      algebra_simps)

theorem flick_impulse_witness:
  "dragging dragged1 \<and> currentDragging dragged1 < length (circles dragged1)
   \<and> returned (mouseup 803 374 dragged1)
   \<and> velocity (circles (final (mouseup 803 374 dragged1)) ! 1) = Vector 6 8
   \<and> currentDragging (final (mouseup 803 374 dragged1)) = 0
   \<and> \<not> dragging (final (mouseup 803 374 dragged1))
   \<and> dragging stale_drag \<and> length (circles stale_drag) \<le> currentDragging stale_drag
   \<and> mouseup 803 374 stale_drag = Threw (stale_drag\<lparr>dragging := False\<rparr>)"
proof -
  have d: "dragging dragged1" and c: "currentDragging dragged1 < length (circles dragged1)"
    by (simp_all add: dragged1_fields chain3_node1)
  have d': "dragging stale_drag" and c': "length (circles stale_drag) \<le> currentDragging stale_drag"
    by (simp_all add: stale_drag_fields)
  from flick_impulse [OF d, of 803 374] c
  have "returned (mouseup 803 374 dragged1)
      \<and> velocity (circles (final (mouseup 803 374 dragged1)) ! 1) = Vector 6 8
      \<and> currentDragging (final (mouseup 803 374 dragged1)) = 0
      \<and> \<not> dragging (final (mouseup 803 374 dragged1))"
    by (simp add: dragged1_fields)
  moreover
  from flick_impulse [OF d', of 803 374] c'
  have "mouseup 803 374 stale_drag = Threw (stale_drag\<lparr>dragging := False\<rparr>)"
    by blast
  ultimately show ?thesis
    using d c d' c' by simp
qed

text \<open>
  C4, as the claim has it, fails: node 2 is grabbed and a resize to two nodes removes it
  while the button is down; the release then throws, the dragged index is still 2 and no
  node has got a velocity.
\<close>

theorem flick_impulse_counterexample:
  "final (updateNumCircles 2 (run [MouseMove 800 490, MouseDown 800 490] chain3)) = stale_drag
   \<and> dragging stale_drag
   \<and> \<not> returned (mouseup 803 374 stale_drag)
   \<and> currentDragging (final (mouseup 803 374 stale_drag)) = 2
   \<and> map velocity (circles (final (mouseup 803 374 stale_drag))) = [Vector 0 0, Vector 0 0]"
proof -
  have "mouseup 803 374 stale_drag = Threw (stale_drag\<lparr>dragging := False\<rparr>)"
    by (rule stale_mouseup) (simp_all add: stale_drag_fields)
  with stale_drag_reached show ?thesis
    by (simp add: stale_drag_fields)
qed

section \<open>Pinned nodes\<close>





section \<open>The dragged index outside a drag\<close>

text \<open>
  C10, as the code has it. Call the dragged index sound when it is 0, or pinned, or held by
  a drag in progress on a node that exists; the state at load is sound. Every pointer
  handler, key handler and frame, whether it returns or throws, takes a sound state to a
  sound one; so after any run of them from a sound state, when no drag is in progress the
  dragged index is 0 or pinned, and the integrator skips no node other than node 0 and the
  pinned ones. A mouse-up that ends a drag of an existing node and a shift-click on a
  pinned node set the dragged index to 0. Soundness cannot be dropped: from a state that
  has the property of idle states but is not sound, a mouse-up loses that property.
\<close>

theorem drag_index_invariant:
  "(drag_index_ok s \<longrightarrow>
        drag_index_ok (final (handle e s))
      \<and> idle_index_ok (final (handle e s))
      \<and> drag_index_ok (run es s)
      \<and> (\<not> dragging (run es s) \<longrightarrow>
           currentDragging (run es s) = 0
           \<or> currentDragging (run es s) \<in> stationaryPoints (run es s))
      \<and> (\<forall>i. \<not> dragging (run es s) \<and> i \<noteq> 0 \<and> i \<notin> stationaryPoints (run es s) \<longrightarrow>
               \<not> skipped (run es s) i))
   \<and> (dragging s \<and> currentDragging s < length (circles s) \<longrightarrow>
         currentDragging (final (mouseup offsetX offsetY s)) = 0)
   \<and> (pressingShift s
         \<and> getClosestPointIndex s (pointer s offsetX offsetY) \<in> stationaryPoints s \<longrightarrow>
         currentDragging (final (mousedown offsetX offsetY s)) = 0)
   \<and> (idle_index_ok s \<and> \<not> drag_index_ok s \<longrightarrow>
         \<not> idle_index_ok (final (mouseup offsetX offsetY s)))"
proof -
  have sound: "drag_index_ok (final (handle e s))
      \<and> idle_index_ok (final (handle e s))
      \<and> drag_index_ok (run es s)
      \<and> (\<not> dragging (run es s) \<longrightarrow>
           currentDragging (run es s) = 0
           \<or> currentDragging (run es s) \<in> stationaryPoints (run es s))
      \<and> (\<forall>i. \<not> dragging (run es s) \<and> i \<noteq> 0 \<and> i \<notin> stationaryPoints (run es s) \<longrightarrow>
               \<not> skipped (run es s) i)"
    if ok: "drag_index_ok s"
  proof -
    have step: "drag_index_ok (final (handle e s))"
      using ok by (rule drag_index_ok_step)
    then have idle1: "idle_index_ok (final (handle e s))"
      by (simp add: drag_index_ok_iff)
    have r: "drag_index_ok (run es s)"
      using ok by (rule drag_index_ok_run)
    then have idle: "currentDragging (run es s) = 0
        \<or> currentDragging (run es s) \<in> stationaryPoints (run es s)"
      if "\<not> dragging (run es s)"
      using that by (auto simp: drag_index_ok_def)
    then have "\<not> skipped (run es s) i"
      if "\<not> dragging (run es s)" "i \<noteq> 0" "i \<notin> stationaryPoints (run es s)" for i
      using that by (auto simp: skipped_def)
    with step idle1 r idle show ?thesis
      by blast
  qed
  have up: "currentDragging (final (mouseup offsetX offsetY s)) = 0"
    if "dragging s" "currentDragging s < length (circles s)"
    using that by (simp add: mouseup_def set_velocity_def Let_def)
  have unpin: "currentDragging (final (mousedown offsetX offsetY s)) = 0"
    if "pressingShift s" "getClosestPointIndex s (pointer s offsetX offsetY) \<in> stationaryPoints s"
    using that by (simp add: mousedown_def Let_def)
  have needed: "\<not> idle_index_ok (final (mouseup offsetX offsetY s))"
    if "idle_index_ok s" "\<not> drag_index_ok s"
  proof -
    from that have d: "dragging s" "\<not> currentDragging s < length (circles s)"
      and n: "currentDragging s \<noteq> 0" "currentDragging s \<notin> stationaryPoints s"
      by (auto simp: drag_index_ok_def idle_index_ok_def)
    from stale_mouseup[OF d] n show ?thesis
      by (simp add: idle_index_ok_def)
  qed
  from sound up unpin needed show ?thesis
    by blast
qed

lemma pin_node2_run: "run pin_node2 chain3 = final (frame 1016 (keyup ''Shift'' pinned2))"
  by (simp add: pin_node2_def pinned2_reached)

theorem drag_index_invariant_witness:
  "drag_index_ok chain3
   \<and> drag_index_ok (run pin_node2 chain3)
   \<and> \<not> dragging (run pin_node2 chain3)
   \<and> currentDragging (run pin_node2 chain3) = 2
   \<and> stationaryPoints (run pin_node2 chain3) = {0, 2}
   \<and> \<not> skipped (run pin_node2 chain3) 1
   \<and> dragging dragged1
   \<and> currentDragging (final (mouseup 803 374 dragged1)) = 0
   \<and> pressingShift pinned2
   \<and> currentDragging (final (mousedown 800 490 pinned2)) = 0
   \<and> idle_index_ok stale_drag
   \<and> \<not> drag_index_ok stale_drag
   \<and> \<not> idle_index_ok (final (mouseup 803 374 stale_drag))"
proof -
  have ok: "drag_index_ok chain3"
    by (simp add: drag_index_ok_def chain3_fields)
  have st: "idle_index_ok stale_drag" "\<not> drag_index_ok stale_drag"
    by (simp_all add: drag_index_ok_def idle_index_ok_def stale_drag_fields)
  have f: "\<not> dragging (run pin_node2 chain3)" "currentDragging (run pin_node2 chain3) = 2"
    "stationaryPoints (run pin_node2 chain3) = {0, 2}"
    by (simp_all add: pin_node2_run pinned2_fields)
  have c: "pressingShift pinned2" "getClosestPointIndex pinned2 (pointer pinned2 800 490) = 2"
    by (simp_all add: pinned2_def pointer_def getClosestPointIndex_def
        getClosestPointIndex_loop.simps distance_def chain3_def PhysicsCircle_def)
  from drag_index_invariant [of chain3 "Frame 1016" pin_node2 0 0] ok f
  have "drag_index_ok (run pin_node2 chain3) \<and> \<not> skipped (run pin_node2 chain3) 1"
    by simp
  moreover
  from drag_index_invariant [of dragged1 "Frame 1016" "[]" 803 374]
  have "currentDragging (final (mouseup 803 374 dragged1)) = 0"
    by (simp add: dragged1_fields chain3_node1)
  moreover
  from drag_index_invariant [of pinned2 "Frame 1016" "[]" 800 490]
  have "currentDragging (final (mousedown 800 490 pinned2)) = 0"
    by (simp add: c pinned2_fields)
  moreover
  from drag_index_invariant [of stale_drag "Frame 1016" "[]" 803 374] st
  have "\<not> idle_index_ok (final (mouseup 803 374 stale_drag))"
    by blast
  ultimately show ?thesis
    using ok f c st by (simp add: dragged1_fields)
qed

text \<open>
  C10, as the claim has it, fails. Node 2 is grabbed and a resize to two nodes removes it
  while the button is down: a drag is in progress, so the claimed property holds; the
  mouse-up then throws after ending the drag and before resetting the index, and leaves
  the dragged index 2, which is neither 0 nor pinned. And after a shift-click has pinned
  node 2 and a reset has unpinned it, no drag is in progress and the integrator skips the
  unpinned node 2.
\<close>

theorem drag_index_invariant_counterexample:
  "final (updateNumCircles 2 (run [MouseMove 800 490, MouseDown 800 490] chain3)) = stale_drag
   \<and> idle_index_ok stale_drag
   \<and> \<not> idle_index_ok (final (mouseup 803 374 stale_drag))
   \<and> \<not> dragging (final (mouseup 803 374 stale_drag))
   \<and> currentDragging (final (mouseup 803 374 stale_drag)) = 2
   \<and> stationaryPoints (final (mouseup 803 374 stale_drag)) = {0}
   \<and> \<not> dragging (resetCircles pinned2)
   \<and> 2 \<notin> stationaryPoints (resetCircles pinned2)
   \<and> skipped (resetCircles pinned2) 2"
proof -
  have "mouseup 803 374 stale_drag = Threw (stale_drag\<lparr>dragging := False\<rparr>)"
    by (rule stale_mouseup) (simp_all add: stale_drag_fields)
  moreover have "\<not> dragging (resetCircles pinned2)" "2 \<notin> stationaryPoints (resetCircles pinned2)"
    "skipped (resetCircles pinned2) 2"
    by (simp_all add: resetCircles_def skipped_def pinned2_fields)
  ultimately show ?thesis
    using stale_drag_reached by (simp add: idle_index_ok_def stale_drag_fields)
qed

end
